theory Spec2Isabelle
  imports Complex_Main
begin

section \<open>Data model\<close>

text \<open>
  The analytics core of the order-book visualizer: the \<open>PressureZoneDetector\<close>, the
  \<open>OrderbookProcessor\<close> and the feed manager (\<open>WebSocketManager\<close>).

  A JavaScript \<open>number\<close> is modelled by a real: arithmetic is exact, and the values NaN and
  \<open>\<plusminus>Infinity\<close> do not exist. The two coincide wherever no quotient has a zero divisor and
  no rounding decides a comparison; the theorems below carry the hypotheses that keep every
  divisor away from zero (positive prices and quantities, as the parsers of the feed manager
  guarantee by filtering \<open>price > 0 && quantity > 0\<close>). The one exception is
  \<open>calculateMarketImpact\<close>, whose divisor is a difference of two numbers that rounding can
  make equal: its arithmetic is modelled with the rounding of doubles.
\<close>

record OrderbookLevel =
  price :: real
  quantity :: real
  cumulative :: "real option"

record OrderbookData =
  symbol :: string
  venue :: string
  timestamp :: real
  bids :: "OrderbookLevel list"
  asks :: "OrderbookLevel list"

datatype side = Bid | Ask

datatype movement = Strengthening | Weakening | Stable

record Prediction =
  movement :: movement
  confidence :: real

record PressureZone =
  priceStart :: real
  priceEnd :: real
  volume :: real
  intensity :: real
  zone_type :: side
  zone_timestamp :: real
  prediction :: Prediction

text \<open>A level as the parsers build it: price and quantity, no cumulative field yet.\<close>

definition mk_level :: "real \<Rightarrow> real \<Rightarrow> OrderbookLevel" where
  "mk_level p q = \<lparr>price = p, quantity = q, cumulative = None\<rparr>"

text \<open>The data model's invariant on a side: every price and quantity is positive.\<close>

definition valid_levels :: "OrderbookLevel list \<Rightarrow> bool" where
  "valid_levels ls = list_all (\<lambda>l. 0 < price l \<and> 0 < quantity l) ls"

text \<open>\<open>levels.reduce((sum, level) => sum + level.quantity, 0)\<close>\<close>

definition sum_quantity :: "OrderbookLevel list \<Rightarrow> real" where
  "sum_quantity ls = foldl (\<lambda>sum level. sum + quantity level) 0 ls"

text \<open>\<open>xs.slice(-n)\<close>: the last \<open>n\<close> elements (all of them when there are fewer).\<close>

definition slice_last :: "nat \<Rightarrow> 'a list \<Rightarrow> 'a list" where
  "slice_last n xs = drop (length xs - n) xs"

section \<open>Pressure zone detector: imbalance\<close>

datatype direction = DirBid | DirAsk | Balanced

datatype outlook = Bullish | Bearish | Neutral

record Imbalance =
  ratio :: real
  direction :: direction
  imb_intensity :: real
  imb_prediction :: outlook

text \<open>
  JavaScript evaluates \<open>x / 0\<close> to NaN or an infinity without raising. Where a claim is
  about a division by zero, the quotient is written with \<open>js_div\<close>, which returns \<open>None\<close>
  for a zero divisor, so that the non-finite result is a value of the model.
\<close>

datatype num_error = NotFinite

definition js_div :: "real \<Rightarrow> real \<Rightarrow> real option" where
  "js_div a b = (if b = 0 then None else Some (a / b))"

definition detectImbalances :: "OrderbookData \<Rightarrow> num_error + Imbalance" where
  "detectImbalances data =
     (let bidVolume = sum_quantity (take 10 (bids data));
          askVolume = sum_quantity (take 10 (asks data))
      in if bidVolume = 0 \<and> askVolume = 0
         then Inr \<lparr>ratio = 1, direction = Balanced, imb_intensity = 0, imb_prediction = Neutral\<rparr>
         else (case js_div bidVolume (bidVolume + askVolume) of
                 None \<Rightarrow> Inl NotFinite
               | Some r \<Rightarrow>
                   let imbalanceIntensity = \<bar>r - 0.5\<bar> * 2
                   in if r > 0.65
                      then Inr \<lparr>ratio = r, direction = DirBid,
                                imb_intensity = imbalanceIntensity, imb_prediction = Bullish\<rparr>
                      else if r < 0.35
                      then Inr \<lparr>ratio = r, direction = DirAsk,
                                imb_intensity = imbalanceIntensity, imb_prediction = Bearish\<rparr>
                      else Inr \<lparr>ratio = r, direction = Balanced,
                                imb_intensity = imbalanceIntensity, imb_prediction = Neutral\<rparr>))"

section \<open>Pressure zone detector: clustering, admission, intensity\<close>

text \<open>The fields of the class: \<open>volumeThreshold\<close>, \<open>clusterDistance\<close>, \<open>maxHistoryLength\<close>.\<close>

definition volumeThreshold :: real where
  "volumeThreshold = 0.1"

definition clusterDistance :: real where
  "clusterDistance = 0.005"

definition maxHistoryLength :: nat where
  "maxHistoryLength = 1000"

text \<open>
  \<open>Math.max(...xs)\<close> and \<open>Math.min(...xs)\<close>. With no argument JavaScript returns
  \<open>-Infinity\<close> and \<open>Infinity\<close>, which are no reals: the empty case is left without an
  equation, and no theorem below evaluates it.
\<close>

fun math_max :: "real list \<Rightarrow> real" where
  "math_max (x # xs) = fold max xs x"

fun math_min :: "real list \<Rightarrow> real" where
  "math_min (x # xs) = fold min xs x"

text \<open>
  The three constants of the clustering loop's body, for the current level and the last
  level of the current cluster: \<open>priceDistance\<close>, \<open>volumeWeight\<close>, \<open>weightedDistance\<close>.
\<close>

definition priceDistance :: "OrderbookLevel \<Rightarrow> OrderbookLevel \<Rightarrow> real" where
  "priceDistance currentLevel lastInCluster =
     \<bar>price currentLevel - price lastInCluster\<bar> / price lastInCluster"

definition volumeWeight :: "OrderbookLevel \<Rightarrow> OrderbookLevel \<Rightarrow> real" where
  "volumeWeight currentLevel lastInCluster =
     min (quantity currentLevel) (quantity lastInCluster) /
     max (quantity currentLevel) (quantity lastInCluster)"

definition weightedDistance :: "OrderbookLevel \<Rightarrow> OrderbookLevel \<Rightarrow> real" where
  "weightedDistance currentLevel lastInCluster =
     priceDistance currentLevel lastInCluster *
       (1 + (1 - volumeWeight currentLevel lastInCluster))"

text \<open>
  The \<open>for\<close> loop of \<open>enhancedClusterLevels\<close> over \<open>sorted[1..]\<close>, with the variables
  \<open>currentCluster\<close> and \<open>clusters\<close>; the final \<open>clusters.push(currentCluster)\<close> is the
  base case.
\<close>

fun cluster_loop ::
  "OrderbookLevel list \<Rightarrow> OrderbookLevel list \<Rightarrow> OrderbookLevel list list
     \<Rightarrow> OrderbookLevel list list" where
  "cluster_loop [] currentCluster clusters = clusters @ [currentCluster]"
| "cluster_loop (currentLevel # rest) currentCluster clusters =
     (if weightedDistance currentLevel (last currentCluster) \<le> clusterDistance
      then cluster_loop rest (currentCluster @ [currentLevel]) clusters
      else cluster_loop rest [currentLevel] (clusters @ [currentCluster]))"

text \<open>
  \<open>[...levels].sort((a, b) => a.price - b.price)\<close> is a stable ascending sort by price,
  as \<open>sort_key price\<close> is.
\<close>

definition enhancedClusterLevels :: "OrderbookLevel list \<Rightarrow> OrderbookLevel list list" where
  "enhancedClusterLevels levels =
     (if levels = [] then []
      else let sorted = sort_key price levels
           in cluster_loop (tl sorted) [hd sorted] [])"

definition calculateAdvancedIntensity ::
  "real \<Rightarrow> real \<Rightarrow> nat \<Rightarrow> OrderbookLevel list \<Rightarrow> real" where
  "calculateAdvancedIntensity clusterVolume totalVolume levelCount cluster =
     (let volumeRatio = clusterVolume / totalVolume;
          densityFactor = (if levelCount > 1 then ln (real levelCount) else 1);
          avgQuantity = clusterVolume / real levelCount;
          maxQuantity = math_max (map quantity cluster);
          concentrationFactor = maxQuantity / avgQuantity
      in volumeRatio * densityFactor * concentrationFactor * 100)"

text \<open>
  \<open>recentZones.reduce((trend, zone, index) => index === 0 ? 0 : trend + (zone.intensity -
  recentZones[index - 1].intensity), 0)\<close>
\<close>

definition intensity_delta_sum :: "PressureZone list \<Rightarrow> real" where
  "intensity_delta_sum recentZones =
     foldl (\<lambda>trend index.
              if index = 0 then 0
              else trend + (intensity (recentZones ! index) - intensity (recentZones ! (index - 1))))
           0 [0..<length recentZones]"

text \<open>The instance field \<open>historicalZones\<close> is the last argument.\<close>

definition predictZoneMovement ::
  "OrderbookLevel list \<Rightarrow> side \<Rightarrow> real \<Rightarrow> PressureZone list \<Rightarrow> Prediction" where
  "predictZoneMovement cluster type ts historicalZones =
     (let avgPrice = foldl (\<lambda>sum level. sum + price level) 0 cluster / real (length cluster);
          similarZones = filter (\<lambda>zone. zone_type zone = type \<and>
                                   \<bar>priceStart zone - avgPrice\<bar> / avgPrice < 0.02 \<and>
                                   ts - zone_timestamp zone < 300000) historicalZones
      in if length similarZones < 3 then \<lparr>movement = Stable, confidence = 0.3\<rparr>
         else let recentZones = slice_last 5 similarZones;
                  intensityTrend = intensity_delta_sum recentZones / real (length recentZones - 1);
                  conf = min (real (length similarZones) / 10) 0.95
              in if intensityTrend > 5 then \<lparr>movement = Strengthening, confidence = conf\<rparr>
                 else if intensityTrend < - 5 then \<lparr>movement = Weakening, confidence = conf\<rparr>
                 else \<lparr>movement = Stable, confidence = conf\<rparr>)"

text \<open>The zone built inside \<open>clusters.forEach\<close> for an admitted cluster.\<close>

definition zone_of_cluster ::
  "real \<Rightarrow> side \<Rightarrow> real \<Rightarrow> PressureZone list \<Rightarrow> OrderbookLevel list \<Rightarrow> PressureZone" where
  "zone_of_cluster totalVolume type ts historicalZones cluster =
     (let clusterVolume = sum_quantity cluster;
          prices = sort_key (\<lambda>x. x) (map price cluster)
      in \<lparr>priceStart = hd prices,
          priceEnd = last prices,
          volume = clusterVolume,
          intensity = calculateAdvancedIntensity clusterVolume totalVolume (length cluster) cluster,
          zone_type = type,
          zone_timestamp = ts,
          prediction = predictZoneMovement cluster type ts historicalZones\<rparr>)"

text \<open>
  \<open>detectZonesInLevels\<close>: the \<open>forEach\<close> pushes a zone for every cluster that passes the
  volume test; the result is sorted by intensity, descending
  (\<open>sort((a, b) => b.intensity - a.intensity)\<close>, stable).
\<close>

definition detectZonesInLevels ::
  "OrderbookLevel list \<Rightarrow> side \<Rightarrow> real \<Rightarrow> PressureZone list \<Rightarrow> PressureZone list" where
  "detectZonesInLevels levels type ts historicalZones =
     (if levels = [] then []
      else let totalVolume = sum_quantity levels;
               minVolumeForZone = totalVolume * volumeThreshold;
               clusters = enhancedClusterLevels levels;
               pressureZones =
                 foldl (\<lambda>zones cluster.
                          if sum_quantity cluster \<ge> minVolumeForZone
                          then zones @ [zone_of_cluster totalVolume type ts historicalZones cluster]
                          else zones)
                       [] clusters
           in sort_key (\<lambda>z. - intensity z) pressureZones)"

definition updateHistoricalZones :: "PressureZone list \<Rightarrow> PressureZone list \<Rightarrow> PressureZone list" where
  "updateHistoricalZones historicalZones zones =
     (let pushed = historicalZones @ zones
      in if length pushed > maxHistoryLength then slice_last maxHistoryLength pushed else pushed)"

text \<open>\<open>detectPressureZones\<close> returns the zones and the new value of \<open>historicalZones\<close>.\<close>

definition detectPressureZones ::
  "OrderbookData \<Rightarrow> PressureZone list \<Rightarrow> PressureZone list \<times> PressureZone list" where
  "detectPressureZones data historicalZones =
     (let bidZones = detectZonesInLevels (bids data) Bid (timestamp data) historicalZones;
          askZones = detectZonesInLevels (asks data) Ask (timestamp data) historicalZones;
          allZones = bidZones @ askZones
      in (allZones, updateHistoricalZones historicalZones allZones))"

section \<open>Pressure zone detector: market depth heatmap\<close>

record HeatmapData =
  priceLevel :: real
  timeSlot :: nat
  hm_volume :: real
  hm_intensity :: real
  hm_type :: side
  temperature :: real

definition calculateTemperature :: "real \<Rightarrow> nat \<Rightarrow> real" where
  "calculateTemperature vol maxTimeSlots =
     (let baseTemp = ln (vol + 1) * 10;
          normalizedTemp = min (baseTemp / 100) 1
      in normalizedTemp)"

text \<open>
  \<open>x >= arr\<close> for a number \<open>x\<close> and an array \<open>arr\<close> of numbers, as the ask branch of the
  heatmap writes it (\<open>ask.price >= priceRange\<close>). JavaScript converts the array to a
  primitive with \<open>toString\<close>, which joins the elements with commas, and then to a number:
  the empty array gives \<open>""\<close> and 0, a one-element array gives its element, and an array of
  two or more elements gives a string such as \<open>"101,101.04"\<close>, which converts to NaN; every
  comparison with NaN is false.
\<close>

fun js_ge_array :: "real \<Rightarrow> real list \<Rightarrow> bool" where
  "js_ge_array x [] = (x \<ge> 0)"
| "js_ge_array x [y] = (x \<ge> y)"
| "js_ge_array x (y # z # zs) = False"

text \<open>
  The two accumulations of a heatmap cell, over the order books of the time slot:
  \<open>relevantOrderbooks.forEach(ob => { ob.bids.forEach(...); ob.asks.forEach(...) })\<close>.
\<close>

definition cell_bidVolume :: "OrderbookData list \<Rightarrow> real list \<Rightarrow> real" where
  "cell_bidVolume relevantOrderbooks priceRange =
     foldl (\<lambda>bidVolume ob.
              foldl (\<lambda>bidVolume bid.
                       if price bid \<ge> priceRange ! 0 \<and> price bid < priceRange ! 1
                       then bidVolume + quantity bid else bidVolume)
                    bidVolume (bids ob))
           0 relevantOrderbooks"

definition cell_askVolume :: "OrderbookData list \<Rightarrow> real list \<Rightarrow> real" where
  "cell_askVolume relevantOrderbooks priceRange =
     foldl (\<lambda>askVolume ob.
              foldl (\<lambda>askVolume ask.
                       if js_ge_array (price ask) priceRange \<and> price ask < priceRange ! 1
                       then askVolume + quantity ask else askVolume)
                    askVolume (asks ob))
           0 relevantOrderbooks"

text \<open>The body of the inner loop: the cells pushed for time slot \<open>t\<close> and price slot \<open>p\<close>.\<close>

definition heatmap_cell ::
  "OrderbookData list \<Rightarrow> real \<Rightarrow> real \<Rightarrow> nat \<Rightarrow> nat \<Rightarrow> nat \<Rightarrow> HeatmapData list" where
  "heatmap_cell relevantOrderbooks minPrice priceStep timeSlots t p =
     (let priceLevel = minPrice + real p * priceStep;
          priceRange = [priceLevel, priceLevel + priceStep];
          bidVolume = cell_bidVolume relevantOrderbooks priceRange;
          askVolume = cell_askVolume relevantOrderbooks priceRange
      in (if bidVolume > 0
          then [\<lparr>priceLevel = priceLevel, timeSlot = t, hm_volume = bidVolume,
                  hm_intensity = min (bidVolume / 10) 1, hm_type = Bid,
                  temperature = calculateTemperature bidVolume timeSlots\<rparr>]
          else [])
         @ (if askVolume > 0
            then [\<lparr>priceLevel = priceLevel, timeSlot = t, hm_volume = askVolume,
                    hm_intensity = min (askVolume / 10) 1, hm_type = Ask,
                    temperature = calculateTemperature askVolume timeSlots\<rparr>]
            else []))"

text \<open>
  \<open>generateMarketDepthHeatmap\<close>; the value of \<open>Date.now()\<close> is the argument \<open>now\<close>. The two
  nested \<open>for\<close> loops push cells in the order of \<open>t\<close>, then \<open>p\<close>.
\<close>

definition generateMarketDepthHeatmap ::
  "OrderbookData list \<Rightarrow> real \<Rightarrow> real \<Rightarrow> HeatmapData list" where
  "generateMarketDepthHeatmap orderbooks timeWindow now =
     (let timeSlots = 20;
          priceSlots = 50
      in if orderbooks = [] then []
         else let allPrices = concat (map (\<lambda>ob. map price (bids ob) @ map price (asks ob))
                                        orderbooks);
                  minPrice = math_min allPrices;
                  maxPrice = math_max allPrices;
                  priceStep = (maxPrice - minPrice) / real priceSlots;
                  timeStep = timeWindow / real timeSlots
              in concat (map (\<lambda>t.
                   let timeSlotStart = now - timeWindow + real t * timeStep;
                       timeSlotEnd = timeSlotStart + timeStep;
                       relevantOrderbooks =
                         filter (\<lambda>ob. timestamp ob \<ge> timeSlotStart \<and> timestamp ob < timeSlotEnd)
                                orderbooks
                   in concat (map (heatmap_cell relevantOrderbooks minPrice priceStep timeSlots t)
                                  [0..<priceSlots]))
                 [0..<timeSlots]))"

text \<open>
  One snapshot inside the first time slot of a 300000 ms window ending at 300000: a bid at
  100 and asks at 101.01 and 102, each of quantity 1.
\<close>

definition heatmap_book :: OrderbookData where
  "heatmap_book = \<lparr>symbol = ''BTCUSDT'', venue = ''Binance'', timestamp = 1000,
                    bids = [mk_level 100 1], asks = [mk_level 101.01 1, mk_level 102 1]\<rparr>"

section \<open>Orderbook processor: market impact\<close>

text \<open>
  \<open>calculateMarketImpact\<close> is modelled with the rounding of its double arithmetic: every
  sum, difference, product and quotient of the source is rounded to the nearest double,
  ties to even. A double has a significand of 53 bits; the exponent range is not bounded
  in the model (no overflow to Infinity, no subnormal numbers). A quotient with divisor 0,
  which JavaScript evaluates to NaN or an infinity without raising, is \<open>None\<close>, and a result
  with such a field is \<open>Inl NotFinite\<close>.
\<close>

definition round_half_even :: "real \<Rightarrow> int" where
  "round_half_even m =
     (let f = \<lfloor>m\<rfloor>;
          r = m - of_int f
      in if r < 1 / 2 then f
         else if r > 1 / 2 then f + 1
         else if even f then f else f + 1)"

definition fl :: "real \<Rightarrow> real" where
  "fl x =
     (if x = 0 then 0
      else let e = \<lfloor>log 2 \<bar>x\<bar>\<rfloor>;
               ulp = 2 powr of_int (e - 52)
           in of_int (round_half_even (x / ulp)) * ulp)"

definition fl_div :: "real \<Rightarrow> real \<Rightarrow> real option" where
  "fl_div a b = (if b = 0 then None else Some (fl (a / b)))"

datatype trade_side = Buy | Sell

record MarketImpact =
  averagePrice :: real
  priceImpact :: real
  slippage :: real
  worstPrice :: real
  executionTime :: real

text \<open>
  The side walked by \<open>calculateMarketImpact\<close>: the asks sorted ascending for a buy, the
  bids sorted descending for a sell (\<open>sort((a, b) => b.price - a.price)\<close>, stable).
\<close>

definition impact_levels :: "OrderbookData \<Rightarrow> trade_side \<Rightarrow> OrderbookLevel list" where
  "impact_levels data tside =
     (if tside = Buy then sort_key price (asks data)
      else sort_key (\<lambda>l. - price l) (bids data))"

text \<open>
  The \<open>for (const level of levels)\<close> loop with its \<open>break\<close>; the state is
  \<open>(remainingSize, totalCost, worstPrice, levelsUsed)\<close> (\<open>worstPrice\<close> is written
  \<open>worst\<close>, the name being a field of the result). \<open>Math.min\<close> is exact;
  \<open>remainingSize -= sizeAtLevel\<close> and \<open>totalCost += sizeAtLevel * level.price\<close> round.
\<close>

fun impact_loop ::
  "OrderbookLevel list \<Rightarrow> real \<times> real \<times> real \<times> nat \<Rightarrow> real \<times> real \<times> real \<times> nat" where
  "impact_loop [] st = st"
| "impact_loop (level # rest) (remainingSize, totalCost, worst, levelsUsed) =
     (if remainingSize \<le> 0 then (remainingSize, totalCost, worst, levelsUsed)
      else let sizeAtLevel = min remainingSize (quantity level)
           in impact_loop rest (fl (remainingSize - sizeAtLevel),
                                fl (totalCost + fl (sizeAtLevel * price level)),
                                price level,
                                levelsUsed + 1))"

text \<open>
  The consumed size is recovered as \<open>tradeSize - remainingSize\<close>, and the literal \<open>0.1\<close> is
  the double nearest to it.
\<close>

definition calculateMarketImpact ::
  "OrderbookData \<Rightarrow> real \<Rightarrow> trade_side \<Rightarrow> num_error + MarketImpact" where
  "calculateMarketImpact data tradeSize tside =
     (let levels = impact_levels data tside
      in if levels = []
         then Inr \<lparr>averagePrice = 0, priceImpact = 0, slippage = 0, worstPrice = 0,
                   executionTime = 0\<rparr>
         else let bestPrice = price (hd levels);
                  (remainingSize, totalCost, worst, levelsUsed) =
                     impact_loop levels (tradeSize, 0, bestPrice, 0)
              in case fl_div totalCost (fl (tradeSize - remainingSize)) of
                   None \<Rightarrow> Inl NotFinite
                 | Some avg \<Rightarrow>
                     (case (fl_div (fl (avg - bestPrice)) bestPrice,
                            fl_div (fl (worst - bestPrice)) bestPrice) of
                        (Some impactRatio, Some slipRatio) \<Rightarrow>
                          Inr \<lparr>averagePrice = avg,
                               priceImpact = fl (\<bar>impactRatio\<bar> * 100),
                               slippage = fl (\<bar>slipRatio\<bar> * 100),
                               worstPrice = worst,
                               executionTime = fl (real levelsUsed * fl 0.1)\<rparr>
                      | _ \<Rightarrow> Inl NotFinite))"

text \<open>A book of three bids and three asks, one unit each.\<close>

definition impact_book :: OrderbookData where
  "impact_book = \<lparr>symbol = ''BTCUSDT'', venue = ''Binance'', timestamp = 0,
                   bids = [mk_level 102 1, mk_level 101 1, mk_level 100 1],
                   asks = [mk_level 103 1, mk_level 104 1, mk_level 105 1]\<rparr>"

section \<open>Orderbook processor: spread analysis\<close>

record SpreadSample =
  sample_timestamp :: real
  sample_value :: real

datatype tightness_class = Tight | Normal | Wide

datatype trend_class = Narrowing | TrendStable | Widening

record SpreadAnalysis =
  current :: real
  average :: real
  spread_min :: real
  spread_max :: real
  tightness :: tightness_class
  trend :: trend_class
  historicalSpreads :: "SpreadSample list"
  volatility :: real
  venues :: "(string \<times> real) list"


text \<open>The key of the per-venue+symbol stores: \<open>`${venue}-${symbol}`\<close>.\<close>

definition store_key :: "string \<Rightarrow> string \<Rightarrow> string" where
  "store_key v s = v @ ''-'' @ s"


text \<open>
  The numerator of the least-squares slope of \<open>y 0, ..., y (n - 1)\<close> against the indices,
  \<open>n * sumXY - sumX * sumY\<close>, written with sums over the indices; the denominator
  \<open>n * sumXX - sumX * sumX\<close> is the same expression for \<open>y i = i\<close>.
\<close>

definition regN :: "(nat \<Rightarrow> real) \<Rightarrow> nat \<Rightarrow> real" where
  "regN y n = real n * (\<Sum>i<n. real i * y i) - (\<Sum>i<n. real i) * (\<Sum>i<n. y i)"



section \<open>Orderbook processor: bounded histories\<close>

record OrderbookSnapshot =
  snap_timestamp :: real
  snap_data :: OrderbookData
  snap_pressureZones :: "PressureZone list"
  zAxisPosition :: real

record HistoricalDataPoint =
  hp_timestamp :: real
  hp_orderbook :: OrderbookData
  hp_pressureZones :: "PressureZone list"
  hp_zPosition :: real

record ZAxisTimeData =
  currentTime :: real
  timeWindow :: real
  timeSlices :: real
  zSpacing :: real
  dataPoints :: "HistoricalDataPoint list"

text \<open>
  The fields of an \<open>OrderbookProcessor\<close>: the three maps keyed by venue+symbol and the
  time-axis data. (\<open>orderFlow\<close> of a historical point is always the empty array and is left
  out.)
\<close>

record processor =
  p_snapshots :: "string \<rightharpoonup> OrderbookSnapshot list"
  p_spreadHistory :: "string \<rightharpoonup> SpreadSample list"
  p_historicalData :: "string \<rightharpoonup> HistoricalDataPoint list"
  p_zAxisTimeData :: ZAxisTimeData

definition maxSnapshots :: nat where
  "maxSnapshots = 1000"

text \<open>The constructor; \<open>now\<close> is the value of \<open>Date.now()\<close>.\<close>

definition new_processor :: "real \<Rightarrow> processor" where
  "new_processor now =
     \<lparr>p_snapshots = Map.empty, p_spreadHistory = Map.empty, p_historicalData = Map.empty,
      p_zAxisTimeData = \<lparr>currentTime = now, timeWindow = 300000, timeSlices = 50,
                         zSpacing = 10, dataPoints = []\<rparr>\<rparr>"

text \<open>\<open>map.get(key)\<close> after \<open>if (!map.has(key)) map.set(key, [])\<close>, and \<open>map.get(key) || []\<close>.\<close>

definition get_list :: "('k \<rightharpoonup> 'a list) \<Rightarrow> 'k \<Rightarrow> 'a list" where
  "get_list m k = (case m k of None \<Rightarrow> [] | Some xs \<Rightarrow> xs)"

text \<open>\<open>xs.push(x); if (xs.length > cap) xs.shift();\<close>\<close>

definition push_shift :: "nat \<Rightarrow> 'a list \<Rightarrow> 'a \<Rightarrow> 'a list" where
  "push_shift cap xs x =
     (let pushed = xs @ [x] in if length pushed > cap then tl pushed else pushed)"

definition calculateZPosition :: "ZAxisTimeData \<Rightarrow> real \<Rightarrow> real" where
  "calculateZPosition z ts =
     (let timeDiff = currentTime z - ts;
          normalizedTime = timeDiff / timeWindow z
      in normalizedTime * zSpacing z * timeSlices z)"

text \<open>The \<open>map\<close> of \<open>calculateCumulative\<close> with its running variable \<open>cumulative\<close>.\<close>

fun cumulate :: "real \<Rightarrow> OrderbookLevel list \<Rightarrow> OrderbookLevel list" where
  "cumulate c [] = []"
| "cumulate c (level # rest) =
     (let c' = c + quantity level in level\<lparr>cumulative := Some c'\<rparr> # cumulate c' rest)"

datatype sort_order = Asc | Desc

definition calculateCumulative :: "OrderbookLevel list \<Rightarrow> sort_order \<Rightarrow> OrderbookLevel list" where
  "calculateCumulative levels order =
     cumulate 0 (if order = Asc then sort_key price levels
                 else sort_key (\<lambda>l. - price l) levels)"

definition calculateSpread :: "OrderbookData \<Rightarrow> real" where
  "calculateSpread data =
     (if length (bids data) = 0 \<or> length (asks data) = 0 then 0
      else let bestBid = math_max (map price (bids data));
               bestAsk = math_min (map price (asks data))
           in bestAsk - bestBid)"

definition updateSpreadHistory :: "OrderbookData \<Rightarrow> processor \<Rightarrow> processor" where
  "updateSpreadHistory data st =
     (if length (bids data) = 0 \<or> length (asks data) = 0 then st
      else let key = store_key (venue data) (symbol data);
               spread = calculateSpread data;
               history = get_list (p_spreadHistory st) key
           in st\<lparr>p_spreadHistory := (p_spreadHistory st)
                   (key \<mapsto> push_shift 1000 history
                              \<lparr>sample_timestamp = timestamp data, sample_value = spread\<rparr>)\<rparr>)"

definition updateHistoricalData ::
  "string \<Rightarrow> OrderbookData \<Rightarrow> PressureZone list \<Rightarrow> processor \<Rightarrow> processor" where
  "updateHistoricalData key data pressureZones st =
     (let history = get_list (p_historicalData st) key;
          zPosition = calculateZPosition (p_zAxisTimeData st) (timestamp data);
          historicalPoint = \<lparr>hp_timestamp = timestamp data, hp_orderbook = data,
                             hp_pressureZones = pressureZones, hp_zPosition = zPosition\<rparr>
      in st\<lparr>p_historicalData := (p_historicalData st)
              (key \<mapsto> push_shift maxSnapshots history historicalPoint)\<rparr>)"

text \<open>
  \<open>updateZAxisTimeData\<close> reads \<open>Date.now()\<close> twice: \<open>now1\<close> for the cutoff and \<open>now2\<close> for
  the new current time.
\<close>

definition updateZAxisTimeData :: "OrderbookSnapshot \<Rightarrow> real \<Rightarrow> real \<Rightarrow> processor \<Rightarrow> processor" where
  "updateZAxisTimeData snapshot now1 now2 st =
     (let z = p_zAxisTimeData st;
          historicalPoint = \<lparr>hp_timestamp = snap_timestamp snapshot,
                             hp_orderbook = snap_data snapshot,
                             hp_pressureZones = snap_pressureZones snapshot,
                             hp_zPosition = zAxisPosition snapshot\<rparr>;
          cutoffTime = now1 - timeWindow z;
          points = filter (\<lambda>point. hp_timestamp point \<ge> cutoffTime)
                          (dataPoints z @ [historicalPoint])
      in st\<lparr>p_zAxisTimeData := z\<lparr>dataPoints := points, currentTime := now2\<rparr>\<rparr>)"

definition addSnapshot ::
  "OrderbookData \<Rightarrow> PressureZone list \<Rightarrow> real \<Rightarrow> real \<Rightarrow> processor \<Rightarrow> processor" where
  "addSnapshot data pressureZones now1 now2 st =
     (let key = store_key (venue data) (symbol data);
          snapshots = get_list (p_snapshots st) key;
          zPosition = calculateZPosition (p_zAxisTimeData st) (timestamp data);
          snapshot = \<lparr>snap_timestamp = timestamp data,
                      snap_data = data\<lparr>bids := calculateCumulative (bids data) Desc,
                                        asks := calculateCumulative (asks data) Asc\<rparr>,
                      snap_pressureZones = pressureZones,
                      zAxisPosition = zPosition\<rparr>;
          st1 = st\<lparr>p_snapshots := (p_snapshots st)
                      (key \<mapsto> push_shift maxSnapshots snapshots snapshot)\<rparr>;
          st2 = updateSpreadHistory data st1;
          st3 = updateHistoricalData key data pressureZones st2
      in updateZAxisTimeData snapshot now1 now2 st3)"

text \<open>
  A sequence of ingest operations on the processor: each operation is a call of
  \<open>addSnapshot\<close> with its snapshot, its zones and the two clock readings.
\<close>

record ingest_op =
  op_data :: OrderbookData
  op_zones :: "PressureZone list"
  op_now1 :: real
  op_now2 :: real

definition op_key :: "ingest_op \<Rightarrow> string" where
  "op_key op = store_key (venue (op_data op)) (symbol (op_data op))"

definition run_processor :: "processor \<Rightarrow> ingest_op list \<Rightarrow> processor" where
  "run_processor st ops =
     foldl (\<lambda>st op. addSnapshot (op_data op) (op_zones op) (op_now1 op) (op_now2 op) st) st ops"

text \<open>
  A sequence of ingest operations on the detector: each operation is a call of
  \<open>detectPressureZones\<close>. The result is the list of the zones returned by each call and
  the final value of \<open>historicalZones\<close>.
\<close>

fun run_detector ::
  "PressureZone list \<Rightarrow> OrderbookData list \<Rightarrow> PressureZone list list \<times> PressureZone list" where
  "run_detector historicalZones [] = ([], historicalZones)"
| "run_detector historicalZones (data # rest) =
     (let (zones, h) = detectPressureZones data historicalZones;
          (out, final) = run_detector h rest
      in (zones # out, final))"

text \<open>
  What a stored snapshot retains of its ingest operation, whatever the time-axis position:
  the timestamp, the data with the cumulative fields, and the zones.
\<close>

definition stored_snapshot :: "OrderbookSnapshot \<Rightarrow> real \<times> OrderbookData \<times> PressureZone list" where
  "stored_snapshot sn = (snap_timestamp sn, snap_data sn, snap_pressureZones sn)"

definition ingested_snapshot :: "ingest_op \<Rightarrow> real \<times> OrderbookData \<times> PressureZone list" where
  "ingested_snapshot op =
     (timestamp (op_data op),
      (op_data op)\<lparr>bids := calculateCumulative (bids (op_data op)) Desc,
                    asks := calculateCumulative (asks (op_data op)) Asc\<rparr>,
      op_zones op)"

text \<open>An ingest operation for Binance/BTCUSDT with the given timestamp.\<close>

definition sample_op :: "real \<Rightarrow> ingest_op" where
  "sample_op ts =
     \<lparr>op_data = \<lparr>symbol = ''BTCUSDT'', venue = ''Binance'', timestamp = ts,
                  bids = [mk_level 100 1], asks = [mk_level 101 1]\<rparr>,
      op_zones = [], op_now1 = ts, op_now2 = ts\<rparr>"

section \<open>Feed manager: fan-out to subscribers\<close>

text \<open>
  A computation that may throw: it returns the state it leaves behind, and the exception if
  one was thrown. \<open>forEach\<close> stops at the first exception that escapes its body;
  \<open>try_catch\<close> runs the handler on the exception of its body.
\<close>

type_synonym ('e, 's) comp = "'s \<Rightarrow> 'e option \<times> 's"

fun forEach :: "('a \<Rightarrow> ('e, 's) comp) \<Rightarrow> 'a list \<Rightarrow> ('e, 's) comp" where
  "forEach f [] s = (None, s)"
| "forEach f (x # xs) s =
     (case f x s of
        (Some e, s') \<Rightarrow> (Some e, s')
      | (None, s') \<Rightarrow> forEach f xs s')"

definition try_catch :: "('e, 's) comp \<Rightarrow> ('e \<Rightarrow> ('e, 's) comp) \<Rightarrow> ('e, 's) comp" where
  "try_catch body handler s =
     (case body s of
        (Some e, s') \<Rightarrow> handler e s'
      | (None, s') \<Rightarrow> (None, s'))"

text \<open>
  The world seen by the dispatch: the log of callback invocations (subscriber, argument),
  the console, and the state the callbacks work on. A subscriber is an identifier with its
  callback, which may change the application state and may throw. The set of subscribers is
  a list in insertion order, the order in which \<open>Set.forEach\<close> visits it; callbacks do not
  subscribe or unsubscribe during a dispatch.
\<close>

record ('d, 'e, 'a) world =
  calls :: "(nat \<times> 'd) list"
  console :: "(string \<times> 'e) list"
  app :: 'a

record ('d, 'e, 'a) subscriber =
  sub_id :: nat
  callback :: "'d \<Rightarrow> 'a \<Rightarrow> 'e option \<times> 'a"

definition invoke ::
  "('d, 'e, 'a) subscriber \<Rightarrow> 'd \<Rightarrow> ('e, ('d, 'e, 'a) world) comp" where
  "invoke sub data w =
     (let (thrown, a) = callback sub data (app w)
      in (thrown, w\<lparr>calls := calls w @ [(sub_id sub, data)], app := a\<rparr>))"

definition console_error :: "string \<Rightarrow> 'e \<Rightarrow> ('e, ('d, 'e, 'a) world) comp" where
  "console_error msg e w = (None, w\<lparr>console := console w @ [(msg, e)]\<rparr>)"

definition notifySubscribers ::
  "'d \<Rightarrow> ('d, 'e, 'a) subscriber list \<Rightarrow> ('e, ('d, 'e, 'a) world) comp" where
  "notifySubscribers data subscribers =
     forEach (\<lambda>sub. try_catch (invoke sub data)
                       (console_error ''Error in subscriber callback:''))
             subscribers"

text \<open>Two subscribers for the examples: one that throws, one that counts its calls.\<close>

definition throwing_subscriber :: "(real, string, nat) subscriber" where
  "throwing_subscriber = \<lparr>sub_id = 1, callback = (\<lambda>d a. (Some ''boom'', a))\<rparr>"

definition counting_subscriber :: "(real, string, nat) subscriber" where
  "counting_subscriber = \<lparr>sub_id = 2, callback = (\<lambda>d a. (None, Suc a))\<rparr>"

section \<open>Feed manager: connection state machine of a venue\<close>















text \<open>
  The clusters are consecutive runs of the sorted list. \<open>cluster_index clusters i\<close> is the
  position, in the list of clusters, of the cluster that holds the \<open>i\<close>-th sorted level.
\<close>

fun cluster_index :: "'a list list \<Rightarrow> nat \<Rightarrow> nat" where
  "cluster_index [] i = 0"
| "cluster_index (c # cs) i =
     (if i < length c then 0 else Suc (cluster_index cs (i - length c)))"

text \<open>
  The intensity as the specification words it, with \<open>log(levelCount)\<close> for every level
  count; to be compared with \<open>calculateAdvancedIntensity\<close>.
\<close>

definition spec_intensity :: "real \<Rightarrow> real \<Rightarrow> OrderbookLevel list \<Rightarrow> real" where
  "spec_intensity clusterVolume totalVolume cluster =
     (clusterVolume / totalVolume) * ln (real (length cluster)) *
     (Max (quantity ` set cluster) / (clusterVolume / real (length cluster))) * 100"

section \<open>Basic facts\<close>

lemma foldl_add_quantity:
  "foldl (\<lambda>sum level. sum + quantity level) a ls = a + sum_list (map quantity ls)"
  by (induction ls arbitrary: a) simp_all

lemma sum_quantity_sum_list: "sum_quantity ls = sum_list (map quantity ls)"
  by (simp add: sum_quantity_def foldl_add_quantity)

section \<open>The clustering pass\<close>

lemma cluster_loop_acc:
  "cluster_loop ls cur cls = cls @ cluster_loop ls cur []"
proof (induction ls arbitrary: cur cls)
  case Nil
  show ?case by simp
next
  case (Cons l ls)
  show ?case
    using Cons.IH [of "cur @ [l]" cls] Cons.IH [of "[l]" "cls @ [cur]"] Cons.IH [of "[l]" "[cur]"]
    by simp
qed

lemma cluster_loop_extend:
  "cur \<noteq> [] \<Longrightarrow>
   cluster_loop ls (x # cur) [] =
     (x # hd (cluster_loop ls cur [])) # tl (cluster_loop ls cur [])"
proof (induction ls arbitrary: cur)
  case Nil
  show ?case by simp
next
  case (Cons l ls)
  have a: "cluster_loop ls [l] [x # cur] = [x # cur] @ cluster_loop ls [l] []"
    by (rule cluster_loop_acc)
  have b: "cluster_loop ls [l] [cur] = [cur] @ cluster_loop ls [l] []"
    by (rule cluster_loop_acc)
  show ?case
    using Cons.prems Cons.IH [of "cur @ [l]"] a b by simp
qed

lemma cluster_loop_step:
  "cluster_loop (l # ls) [x] [] =
     (if weightedDistance l x \<le> clusterDistance
      then (x # hd (cluster_loop ls [l] [])) # tl (cluster_loop ls [l] [])
      else [x] # cluster_loop ls [l] [])"
  using cluster_loop_extend [of "[l]" ls x] cluster_loop_acc [of ls "[l]" "[[x]]"]
  by simp



lemma concat_cluster_loop:
  "concat (cluster_loop ls cur cls) = concat cls @ cur @ ls"
  by (induction ls arbitrary: cur cls) simp_all

lemma cluster_loop_shape:
  "\<exists>g gs. cluster_loop ls [x] [] = (x # g) # gs"
proof (induction ls arbitrary: x)
  case Nil
  show ?case by simp
next
  case (Cons l ls)
  obtain g gs where G: "cluster_loop ls [l] [] = (l # g) # gs"
    using Cons.IH by blast
  have "cluster_loop (l # ls) [x] [] =
     (if weightedDistance l x \<le> clusterDistance
      then (x # l # g) # gs
      else [x] # (l # g) # gs)"
    by (simp only: cluster_loop_step G list.sel)
  then show ?case
    by (cases "weightedDistance l x \<le> clusterDistance") (simp_all only: if_True if_False, blast+)
qed

lemma cluster_loop_nonempty:
  "cur \<noteq> [] \<Longrightarrow> [] \<notin> set cls \<Longrightarrow> [] \<notin> set (cluster_loop ls cur cls)"
proof (induction ls arbitrary: cur cls)
  case Nil
  then show ?case by simp
next
  case (Cons l ls)
  have a: "[] \<notin> set (cluster_loop ls (cur @ [l]) cls)"
    using Cons.IH [of "cur @ [l]" cls] Cons.prems by simp
  have b: "[] \<notin> set (cluster_loop ls [l] (cls @ [cur]))"
    using Cons.IH [of "[l]" "cls @ [cur]"] Cons.prems by simp
  show ?case
    using a b by (cases "weightedDistance l (last cur) \<le> clusterDistance") simp_all
qed

lemma cluster_index_merged:
  "cluster_index ((x # g) # gs) (Suc j) = cluster_index (g # gs) j"
  by simp

lemma cluster_index_adjacent:
  "Suc i < length (x # ls) \<Longrightarrow>
   (cluster_index (cluster_loop ls [x] []) i = cluster_index (cluster_loop ls [x] []) (Suc i))
     = (weightedDistance ((x # ls) ! Suc i) ((x # ls) ! i) \<le> clusterDistance)"
proof (induction ls arbitrary: x i)
  case Nil
  then show ?case by simp
next
  case (Cons l ls)
  obtain g gs where G: "cluster_loop ls [l] [] = (l # g) # gs"
    using cluster_loop_shape by blast
  have step: "cluster_loop (l # ls) [x] [] =
     (if weightedDistance l x \<le> clusterDistance
      then (x # l # g) # gs
      else [x] # (l # g) # gs)"
    by (simp only: cluster_loop_step G list.sel)
  show ?case
  proof (cases i)
    case 0
    show ?thesis
      unfolding step 0 by simp
  next
    case (Suc j)
    then have "Suc j < length (l # ls)"
      using Cons.prems by simp
    from Cons.IH [OF this]
    have IH: "(cluster_index ((l # g) # gs) j = cluster_index ((l # g) # gs) (Suc j))
       = (weightedDistance ((l # ls) ! Suc j) ((l # ls) ! j) \<le> clusterDistance)"
      unfolding G .
    show ?thesis
    proof (cases "weightedDistance l x \<le> clusterDistance")
      case True
      have "cluster_loop (l # ls) [x] [] = (x # l # g) # gs"
        unfolding step using True by simp
      then show ?thesis
        unfolding Suc using IH by (simp only: cluster_index_merged nth_Cons_Suc)
    next
      case False
      have "cluster_loop (l # ls) [x] [] = [x] # (l # g) # gs"
        unfolding step using False by simp
      then show ?thesis
        unfolding Suc using IH by simp
    qed
  qed
qed

lemma enhancedClusterLevels_Cons:
  assumes "sort_key price levels = x # ls"
  shows "enhancedClusterLevels levels = cluster_loop ls [x] []"
proof -
  have "levels \<noteq> []" using assms by auto
  then show ?thesis
    using assms by (simp add: enhancedClusterLevels_def)
qed

lemma concat_enhancedClusterLevels:
  "concat (enhancedClusterLevels levels) = sort_key price levels"
proof (cases "sort_key price levels")
  case Nil
  then have "levels = []" by (metis length_sort list.size(3) length_0_conv)
  then show ?thesis by (simp add: enhancedClusterLevels_def)
next
  case (Cons x ls)
  show ?thesis
    unfolding enhancedClusterLevels_Cons [OF Cons] concat_cluster_loop Cons by simp
qed

lemma enhancedClusterLevels_nonempty:
  "[] \<notin> set (enhancedClusterLevels levels)"
proof (cases "sort_key price levels")
  case Nil
  then have "levels = []" by (metis length_sort list.size(3) length_0_conv)
  then show ?thesis by (simp add: enhancedClusterLevels_def)
next
  case (Cons x ls)
  show ?thesis
    unfolding enhancedClusterLevels_Cons [OF Cons]
    by (rule cluster_loop_nonempty) simp_all
qed

lemma cluster_subset_levels:
  assumes "c \<in> set (enhancedClusterLevels levels)"
  shows "set c \<subseteq> set levels"
proof -
  have "set c \<subseteq> set (concat (enhancedClusterLevels levels))"
    using assms by auto
  then show ?thesis
    unfolding concat_enhancedClusterLevels by simp
qed

lemma valid_levels_pos:
  "valid_levels ls \<Longrightarrow> l \<in> set ls \<Longrightarrow> 0 < price l \<and> 0 < quantity l"
  by (simp add: valid_levels_def list_all_iff)

lemma weightedDistance_equal_quantity:
  assumes "0 < quantity a" and "quantity b = quantity a"
  shows "weightedDistance b a = priceDistance b a"
  using assms by (simp add: weightedDistance_def volumeWeight_def)

lemma weightedDistance_ge_priceDistance:
  assumes "0 < quantity a" and "0 < quantity b" and "0 < price a"
  shows "priceDistance b a \<le> weightedDistance b a"
proof -
  have vw: "volumeWeight b a \<le> 1"
    using assms by (simp add: volumeWeight_def)
  have pd: "0 \<le> priceDistance b a"
    using assms by (simp add: priceDistance_def)
  have "priceDistance b a * 1 \<le> priceDistance b a * (1 + (1 - volumeWeight b a))"
    by (rule mult_left_mono) (use vw pd in simp_all)
  then show ?thesis
    by (simp add: weightedDistance_def)
qed

text \<open>
  Claim C3. For levels with positive prices and quantities, the clustering pass works on the
  levels sorted ascending by price and cuts the sorted list into consecutive clusters. Two
  adjacent sorted levels are in the same cluster exactly when the weighted distance of the
  second to the first, the raw relative price distance times \<open>1 + (1 - minQty/maxQty)\<close>, is
  at most 0.005. So two adjacent levels of equal quantity and relative price distance at most
  0.005 are in one cluster, and two adjacent levels of relative price distance above
  \<open>2 * 0.005\<close> are in different clusters, whatever their quantities.
\<close>

theorem enhancedClusterLevels_adjacent:
  assumes "valid_levels levels" and "Suc i < length levels"
  shows "let ordered = sort_key price levels;
             clusters = enhancedClusterLevels levels;
             a = ordered ! i;
             b = ordered ! Suc i
         in concat clusters = ordered
          \<and> sorted (map price ordered) \<and> set ordered = set levels
          \<and> length ordered = length levels
          \<and> ((cluster_index clusters i = cluster_index clusters (Suc i)) =
               (priceDistance b a *
                  (1 + (1 - min (quantity b) (quantity a) / max (quantity b) (quantity a)))
                \<le> 0.005))
          \<and> (quantity a = quantity b \<and> priceDistance b a \<le> 0.005 \<longrightarrow>
               cluster_index clusters i = cluster_index clusters (Suc i))
          \<and> (priceDistance b a > 2 * 0.005 \<longrightarrow>
               cluster_index clusters i \<noteq> cluster_index clusters (Suc i))"
proof -
  define srt where "srt = sort_key price levels"
  define a where "a = srt ! i"
  define b where "b = srt ! Suc i"
  have len: "length srt = length levels" and st: "set srt = set levels"
    by (simp_all add: srt_def)
  obtain x ls where xs: "srt = x # ls"
    using len assms(2) by (cases srt) auto
  have cl: "enhancedClusterLevels levels = cluster_loop ls [x] []"
    using enhancedClusterLevels_Cons xs unfolding srt_def by blast
  have "a \<in> set srt" and "b \<in> set srt"
    using len assms(2) by (simp_all add: a_def b_def)
  then have pa: "0 < price a \<and> 0 < quantity a" and pb: "0 < price b \<and> 0 < quantity b"
    using valid_levels_pos [OF assms(1)] st by blast+
  have "Suc i < length (x # ls)"
    using len assms(2) xs by simp
  from cluster_index_adjacent [OF this]
  have iff: "(cluster_index (enhancedClusterLevels levels) i =
              cluster_index (enhancedClusterLevels levels) (Suc i))
             = (weightedDistance b a \<le> clusterDistance)"
    unfolding cl a_def b_def xs .
  have c1: "concat (enhancedClusterLevels levels) = srt"
    unfolding srt_def by (rule concat_enhancedClusterLevels)
  have c2: "sorted (map price srt)"
    unfolding srt_def by simp
  have c3: "(cluster_index (enhancedClusterLevels levels) i =
              cluster_index (enhancedClusterLevels levels) (Suc i)) =
            (priceDistance b a *
               (1 + (1 - min (quantity b) (quantity a) / max (quantity b) (quantity a)))
             \<le> 0.005)"
    unfolding iff by (simp add: weightedDistance_def volumeWeight_def clusterDistance_def)
  have c4: "quantity a = quantity b \<and> priceDistance b a \<le> 0.005 \<longrightarrow>
            cluster_index (enhancedClusterLevels levels) i =
              cluster_index (enhancedClusterLevels levels) (Suc i)"
    unfolding iff using weightedDistance_equal_quantity [of a b] pa
    by (simp add: clusterDistance_def)
  have c5: "priceDistance b a > 2 * 0.005 \<longrightarrow>
            cluster_index (enhancedClusterLevels levels) i \<noteq>
              cluster_index (enhancedClusterLevels levels) (Suc i)"
    unfolding iff using weightedDistance_ge_priceDistance [of a b] pa pb
    by (simp add: clusterDistance_def)
  show ?thesis
    unfolding Let_def srt_def [symmetric] a_def [symmetric] b_def [symmetric]
    using c1 c2 c3 c4 c5 len st by blast
qed

theorem enhancedClusterLevels_adjacent_witness:
  "valid_levels [mk_level 100 5, mk_level 102 1, mk_level 100.3 5]
   \<and> cluster_index
         (enhancedClusterLevels [mk_level 100 5, mk_level 102 1, mk_level 100.3 5]) 0
     = cluster_index
         (enhancedClusterLevels [mk_level 100 5, mk_level 102 1, mk_level 100.3 5]) (Suc 0)
   \<and> cluster_index
         (enhancedClusterLevels [mk_level 100 5, mk_level 102 1, mk_level 100.3 5]) (Suc 0)
     \<noteq> cluster_index
         (enhancedClusterLevels [mk_level 100 5, mk_level 102 1, mk_level 100.3 5]) (Suc (Suc 0))"
  using enhancedClusterLevels_adjacent
          [of "[mk_level 100 5, mk_level 102 1, mk_level 100.3 5]" 0]
        enhancedClusterLevels_adjacent
          [of "[mk_level 100 5, mk_level 102 1, mk_level 100.3 5]" "Suc 0"]
  by (simp add: valid_levels_def mk_level_def Let_def priceDistance_def)

section \<open>Admission of clusters as pressure zones\<close>

lemma foldl_push_filter:
  "foldl (\<lambda>zones cluster. if P cluster then zones @ [f cluster] else zones) acc cs
     = acc @ map f (filter P cs)"
  by (induction cs arbitrary: acc) simp_all

lemma detectZonesInLevels_eq:
  assumes "levels \<noteq> []"
  shows "detectZonesInLevels levels type ts hist =
           sort_key (\<lambda>z. - intensity z)
             (map (zone_of_cluster (sum_quantity levels) type ts hist)
                (filter (\<lambda>c. sum_quantity levels * volumeThreshold \<le> sum_quantity c)
                   (enhancedClusterLevels levels)))"
  using assms by (simp add: detectZonesInLevels_def Let_def foldl_push_filter)

lemma volume_zone_of_cluster:
  "volume (zone_of_cluster totalVolume type ts hist c) = sum_quantity c"
  by (simp add: zone_of_cluster_def Let_def)

text \<open>
  Claim C4. For a side with at least one level (positive prices and quantities), a cluster of
  the clustering pass appears as a PressureZone in the output of \<open>detectZonesInLevels\<close> if
  and only if its total quantity is at least 10% of the side's total volume. Every zone of
  the output is the zone of such a cluster, and the output has as many zones as there are
  clusters at or above the threshold.
\<close>

theorem detectZonesInLevels_admission:
  assumes "valid_levels levels" and "levels \<noteq> []"
  shows "let totalVolume = sum_quantity levels;
             clusters = enhancedClusterLevels levels;
             zones = detectZonesInLevels levels type ts hist
         in (\<forall>c \<in> set clusters.
               (zone_of_cluster totalVolume type ts hist c \<in> set zones) = (sum_quantity c \<ge> 0.1 * totalVolume))
          \<and> (\<forall>z \<in> set zones. \<exists>c \<in> set clusters.
               z = zone_of_cluster totalVolume type ts hist c \<and> sum_quantity c \<ge> 0.1 * totalVolume)
          \<and> length zones = length (filter (\<lambda>c. sum_quantity c \<ge> 0.1 * totalVolume) clusters)"
proof -
  define totalVolume where "totalVolume = sum_quantity levels"
  define clusters where "clusters = enhancedClusterLevels levels"
  define zones where "zones = detectZonesInLevels levels type ts hist"
  have thr: "totalVolume * volumeThreshold = 0.1 * totalVolume"
    by (simp add: volumeThreshold_def)
  have zs: "zones = sort_key (\<lambda>z. - intensity z)
                      (map (zone_of_cluster totalVolume type ts hist)
                         (filter (\<lambda>c. 0.1 * totalVolume \<le> sum_quantity c) clusters))"
    unfolding zones_def totalVolume_def clusters_def detectZonesInLevels_eq [OF assms(2)]
    by (simp add: volumeThreshold_def mult.commute)
  have st: "set zones = zone_of_cluster totalVolume type ts hist `
                          {c \<in> set clusters. 0.1 * totalVolume \<le> sum_quantity c}"
    unfolding zs by simp
  have a: "\<forall>c \<in> set clusters.
             (zone_of_cluster totalVolume type ts hist c \<in> set zones) = (sum_quantity c \<ge> 0.1 * totalVolume)"
  proof
    fix c assume c: "c \<in> set clusters"
    show "(zone_of_cluster totalVolume type ts hist c \<in> set zones) = (sum_quantity c \<ge> 0.1 * totalVolume)"
    proof
      assume "zone_of_cluster totalVolume type ts hist c \<in> set zones"
      then obtain c' where c': "0.1 * totalVolume \<le> sum_quantity c'"
        and eq: "zone_of_cluster totalVolume type ts hist c = zone_of_cluster totalVolume type ts hist c'"
        unfolding st by blast
      have "sum_quantity c = sum_quantity c'"
        using arg_cong [OF eq, of volume] by (simp only: volume_zone_of_cluster)
      then show "sum_quantity c \<ge> 0.1 * totalVolume"
        using c' by simp
    next
      assume "sum_quantity c \<ge> 0.1 * totalVolume"
      then show "zone_of_cluster totalVolume type ts hist c \<in> set zones"
        unfolding st using c by blast
    qed
  qed
  have b: "\<forall>z \<in> set zones. \<exists>c \<in> set clusters.
             z = zone_of_cluster totalVolume type ts hist c \<and> sum_quantity c \<ge> 0.1 * totalVolume"
    unfolding st by blast
  have c: "length zones = length (filter (\<lambda>c. sum_quantity c \<ge> 0.1 * totalVolume) clusters)"
    unfolding zs by simp
  show ?thesis
    unfolding Let_def totalVolume_def [symmetric] clusters_def [symmetric] zones_def [symmetric]
    using a b c by blast
qed

theorem detectZonesInLevels_admission_witness:
  "valid_levels [mk_level 100 5, mk_level 100.01 5, mk_level 100.02 5, mk_level 90 1]
   \<and> length (detectZonesInLevels
                [mk_level 100 5, mk_level 100.01 5, mk_level 100.02 5, mk_level 90 1]
                Bid 0 []) = 1"
  using detectZonesInLevels_admission
          [of "[mk_level 100 5, mk_level 100.01 5, mk_level 100.02 5, mk_level 90 1]" Bid 0 "[]"]
  by (simp add: valid_levels_def mk_level_def Let_def enhancedClusterLevels_def
        weightedDistance_def priceDistance_def volumeWeight_def clusterDistance_def
        sum_quantity_def)

section \<open>Intensity of a pressure zone\<close>

lemma math_max_Max: "xs \<noteq> [] \<Longrightarrow> math_max xs = Max (set xs)"
  by (cases xs) (simp_all add: Max.set_eq_fold [symmetric])

lemma sum_quantity_pos:
  assumes "valid_levels ls" and "ls \<noteq> []"
  shows "0 < sum_quantity ls"
proof -
  obtain l rest where ls: "ls = l # rest"
    using assms(2) by (cases ls) auto
  have "0 < quantity l"
    using valid_levels_pos [OF assms(1), of l] ls by simp
  moreover have "0 \<le> sum_list (map quantity rest)"
  proof (rule sum_list_nonneg)
    fix x assume "x \<in> set (map quantity rest)"
    then obtain r where "r \<in> set ls" and "x = quantity r"
      using ls by auto
    then show "0 \<le> x"
      using valid_levels_pos [OF assms(1), of r] by simp
  qed
  ultimately show ?thesis
    by (simp add: sum_quantity_sum_list ls)
qed

lemma valid_levels_subset:
  "valid_levels ls \<Longrightarrow> set c \<subseteq> set ls \<Longrightarrow> valid_levels c"
  by (auto simp: valid_levels_def list_all_iff)

lemma intensity_zone_of_cluster:
  "intensity (zone_of_cluster totalVolume type ts hist c) =
     calculateAdvancedIntensity (sum_quantity c) totalVolume (length c) c"
  by (simp add: zone_of_cluster_def Let_def)

lemma calculateAdvancedIntensity_eq:
  assumes "c \<noteq> []"
  shows "calculateAdvancedIntensity (sum_quantity c) totalVolume (length c) c =
           (sum_quantity c / totalVolume) *
           (if length c > 1 then ln (real (length c)) else 1) *
           (Max (quantity ` set c) / (sum_quantity c / real (length c))) * 100"
  using assms by (simp add: calculateAdvancedIntensity_def Let_def math_max_Max)

text \<open>
  Claim C5, as amended. Every zone of the output is the zone of a non-empty cluster, and its
  intensity is \<open>volumeRatio * densityFactor * concentrationFactor * 100\<close>, where
  \<open>volumeRatio\<close> is the cluster's volume over the side's total volume,
  \<open>concentrationFactor\<close> is the largest level quantity of the cluster over its average level
  quantity, and \<open>densityFactor\<close> is \<open>log(levelCount)\<close> for a cluster of more than one
  level and 1 for a cluster of exactly one level. For more than one level this is the
  formula of the specification; for one level the intensity is \<open>volumeRatio * 100\<close>.
\<close>

theorem detectZonesInLevels_intensity:
  assumes "valid_levels levels"
  shows "\<forall>z \<in> set (detectZonesInLevels levels type ts hist).
           \<exists>c \<in> set (enhancedClusterLevels levels).
             c \<noteq> [] \<and> z = zone_of_cluster (sum_quantity levels) type ts hist c
             \<and> 0 < sum_quantity levels \<and> 0 < sum_quantity c
             \<and> sum_quantity levels = sum_list (map quantity levels)
             \<and> sum_quantity c = sum_list (map quantity c)
             \<and> intensity z =
                 (sum_quantity c / sum_quantity levels) *
                 (if length c > 1 then ln (real (length c)) else 1) *
                 (Max (quantity ` set c) / (sum_quantity c / real (length c))) * 100
             \<and> (length c > 1 \<longrightarrow>
                  intensity z = spec_intensity (sum_quantity c) (sum_quantity levels) c)
             \<and> (length c = 1 \<longrightarrow>
                  intensity z = sum_quantity c / sum_quantity levels * 100)"
proof
  fix z assume z: "z \<in> set (detectZonesInLevels levels type ts hist)"
  then have ne: "levels \<noteq> []"
    by (auto simp: detectZonesInLevels_def)
  from z obtain c where c: "c \<in> set (enhancedClusterLevels levels)"
    and zc: "z = zone_of_cluster (sum_quantity levels) type ts hist c"
    unfolding detectZonesInLevels_eq [OF ne] by auto
  have cne: "c \<noteq> []"
    using c enhancedClusterLevels_nonempty [of levels] by auto
  have vc: "valid_levels c"
    using valid_levels_subset [OF assms cluster_subset_levels [OF c]] .
  have pl: "0 < sum_quantity levels"
    using sum_quantity_pos [OF assms ne] .
  have pc: "0 < sum_quantity c"
    using sum_quantity_pos [OF vc cne] .
  have i: "intensity z =
             (sum_quantity c / sum_quantity levels) *
             (if length c > 1 then ln (real (length c)) else 1) *
             (Max (quantity ` set c) / (sum_quantity c / real (length c))) * 100"
    unfolding zc intensity_zone_of_cluster calculateAdvancedIntensity_eq [OF cne] ..
  have many: "length c > 1 \<longrightarrow>
                intensity z = spec_intensity (sum_quantity c) (sum_quantity levels) c"
    unfolding i spec_intensity_def by simp
  have one: "length c = 1 \<longrightarrow> intensity z = sum_quantity c / sum_quantity levels * 100"
  proof
    assume "length c = 1"
    then obtain l where l: "c = [l]"
      by (cases c) auto
    have "0 < quantity l"
      using pc unfolding l by (simp add: sum_quantity_def)
    then show "intensity z = sum_quantity c / sum_quantity levels * 100"
      unfolding i l by (simp add: sum_quantity_def)
  qed
  show "\<exists>c \<in> set (enhancedClusterLevels levels).
             c \<noteq> [] \<and> z = zone_of_cluster (sum_quantity levels) type ts hist c
             \<and> 0 < sum_quantity levels \<and> 0 < sum_quantity c
             \<and> sum_quantity levels = sum_list (map quantity levels)
             \<and> sum_quantity c = sum_list (map quantity c)
             \<and> intensity z =
                 (sum_quantity c / sum_quantity levels) *
                 (if length c > 1 then ln (real (length c)) else 1) *
                 (Max (quantity ` set c) / (sum_quantity c / real (length c))) * 100
             \<and> (length c > 1 \<longrightarrow>
                  intensity z = spec_intensity (sum_quantity c) (sum_quantity levels) c)
             \<and> (length c = 1 \<longrightarrow>
                  intensity z = sum_quantity c / sum_quantity levels * 100)"
    using c cne zc pl pc i many one sum_quantity_sum_list by blast
qed

theorem detectZonesInLevels_intensity_witness:
  "valid_levels [mk_level 100 5, mk_level 100.01 5, mk_level 100.02 5, mk_level 90 1]
   \<and> map intensity (detectZonesInLevels
                [mk_level 100 5, mk_level 100.01 5, mk_level 100.02 5, mk_level 90 1]
                Bid 0 []) = [15 / 16 * ln 3 * (5 / (15 / 3)) * 100]"
  using detectZonesInLevels_intensity
          [of "[mk_level 100 5, mk_level 100.01 5, mk_level 100.02 5, mk_level 90 1]" Bid 0 "[]"]
  by (simp add: valid_levels_def mk_level_def Let_def enhancedClusterLevels_def
        weightedDistance_def priceDistance_def volumeWeight_def clusterDistance_def
        sum_quantity_def detectZonesInLevels_def volumeThreshold_def zone_of_cluster_def
        calculateAdvancedIntensity_def)

text \<open>
  Claim C5 as stated fails for a cluster of one level: the specification's formula has the
  factor \<open>log 1 = 0\<close> and gives intensity 0, the code guards \<open>levelCount > 1\<close> and uses the
  factor 1. A side with the single level (100, 5) yields one zone of intensity 100.
\<close>

theorem intensity_single_level_counterexample:
  "map intensity (detectZonesInLevels [mk_level 100 5] Bid 0 []) = [100]
   \<and> spec_intensity 5 5 [mk_level 100 5] = 0"
  by (simp add: detectZonesInLevels_def enhancedClusterLevels_def zone_of_cluster_def
        calculateAdvancedIntensity_def sum_quantity_def volumeThreshold_def mk_level_def
        spec_intensity_def Let_def)


section \<open>Imbalance of an empty top of book\<close>

text \<open>
  Claim C10. When the top-10 bid volume and the top-10 ask volume are both zero,
  \<open>detectImbalances\<close> takes the early return: no quotient is evaluated (the result is not
  \<open>Inl NotFinite\<close>) and the result is the fixed record with ratio 1, direction balanced,
  intensity 0 and prediction neutral. This holds in particular for a snapshot whose two sides
  are empty. The reported ratio 1 is above 0.65, and on the general path a ratio of 1
  (some bid volume, no ask volume) is classified bid/bullish.
\<close>

theorem detectImbalances_zero_volume:
  "(sum_quantity (take 10 (bids data)) = 0 \<and> sum_quantity (take 10 (asks data)) = 0 \<longrightarrow>
      detectImbalances data =
        Inr \<lparr>ratio = 1, direction = Balanced, imb_intensity = 0, imb_prediction = Neutral\<rparr>)
   \<and> (bids data = [] \<and> asks data = [] \<longrightarrow>
      detectImbalances data =
        Inr \<lparr>ratio = 1, direction = Balanced, imb_intensity = 0, imb_prediction = Neutral\<rparr>)
   \<and> (0 < sum_quantity (take 10 (bids data)) \<and> sum_quantity (take 10 (asks data)) = 0 \<longrightarrow>
      detectImbalances data =
        Inr \<lparr>ratio = 1, direction = DirBid, imb_intensity = 1, imb_prediction = Bullish\<rparr>)
   \<and> (1::real) > 0.65"
  by (simp add: detectImbalances_def js_div_def sum_quantity_def Let_def)

theorem detectImbalances_zero_volume_witness:
  "detectImbalances \<lparr>symbol = ''BTCUSDT'', venue = ''Binance'', timestamp = 0,
                      bids = [], asks = []\<rparr> =
     Inr \<lparr>ratio = 1, direction = Balanced, imb_intensity = 0, imb_prediction = Neutral\<rparr>
   \<and> detectImbalances \<lparr>symbol = ''BTCUSDT'', venue = ''Binance'', timestamp = 0,
                      bids = [mk_level 100 2], asks = []\<rparr> =
     Inr \<lparr>ratio = 1, direction = DirBid, imb_intensity = 1, imb_prediction = Bullish\<rparr>"
  using detectImbalances_zero_volume
          [of "\<lparr>symbol = ''BTCUSDT'', venue = ''Binance'', timestamp = 0, bids = [], asks = []\<rparr>"]
        detectImbalances_zero_volume
          [of "\<lparr>symbol = ''BTCUSDT'', venue = ''Binance'', timestamp = 0,
                bids = [mk_level 100 2], asks = []\<rparr>"]
  by (simp add: sum_quantity_def mk_level_def)

section \<open>Heatmap: the ask side\<close>

lemma foldl_ask_level_unchanged:
  "foldl (\<lambda>askVolume ask.
            if js_ge_array (price ask) [a, b] \<and> price ask < [a, b] ! 1
            then askVolume + quantity ask else askVolume) v ls = v"
  by (induction ls arbitrary: v) simp_all

lemma cell_askVolume_zero: "cell_askVolume obs [a, b] = 0"
proof -
  have "foldl (\<lambda>askVolume ob.
              foldl (\<lambda>askVolume ask.
                       if js_ge_array (price ask) [a, b] \<and> price ask < [a, b] ! 1
                       then askVolume + quantity ask else askVolume)
                    askVolume (asks ob)) v obs = v" for v
    by (induction obs arbitrary: v) (simp_all only: foldl.simps foldl_ask_level_unchanged)
  then show ?thesis
    unfolding cell_askVolume_def .
qed

lemma heatmap_cell_type:
  "c \<in> set (heatmap_cell obs minPrice priceStep n t p) \<Longrightarrow> hm_type c = Bid"
  by (auto simp: heatmap_cell_def Let_def cell_askVolume_zero split: if_splits)

lemma generateMarketDepthHeatmap_no_ask:
  "c \<in> set (generateMarketDepthHeatmap orderbooks window now) \<Longrightarrow> hm_type c = Bid"
  by (auto simp: generateMarketDepthHeatmap_def Let_def heatmap_cell_type split: if_splits)


text \<open>
  Claim C2. The claim asks for an ask cell wherever ask levels of positive volume fall into a
  bucket of a slot, symmetrically to the bid cells. The code compares \<open>ask.price\<close> with the
  array \<open>priceRange\<close> instead of \<open>priceRange[0]\<close>, a comparison that is always false, so the
  ask volume of every cell stays 0. On the snapshot \<open>heatmap_book\<close> the price range is
  100 to 102 and the price step 1/25: the bid at 100 gives the bid cell of bucket 0, the ask
  at 101.01 lies in bucket 25 (the bid test applied to the asks counts volume 1 there), yet
  the cell of bucket 25 is empty and the heatmap holds the bid cell only.
\<close>

theorem heatmap_ask_cell_missing:
  "heatmap_cell [heatmap_book] 100 (1 / 25) 20 0 0 =
     [\<lparr>priceLevel = 100, timeSlot = 0, hm_volume = 1, hm_intensity = 1 / 10, hm_type = Bid,
       temperature = min (ln 2 * 10 / 100) 1\<rparr>]
   \<and> heatmap_cell [heatmap_book] 100 (1 / 25) 20 0 25 = []
   \<and> cell_bidVolume [heatmap_book\<lparr>bids := asks heatmap_book\<rparr>] [101, 101 + 1 / 25] = 1
   \<and> cell_askVolume [heatmap_book] [101, 101 + 1 / 25] = 0
   \<and> filter (\<lambda>c. hm_type c = Ask)
        (generateMarketDepthHeatmap [heatmap_book] 300000 300000) = []
   \<and> generateMarketDepthHeatmap [heatmap_book] 300000 300000 =
     [\<lparr>priceLevel = 100, timeSlot = 0, hm_volume = 1, hm_intensity = 1 / 10, hm_type = Bid,
       temperature = min (ln 2 * 10 / 100) 1\<rparr>]"
proof -
  have a: "heatmap_cell [heatmap_book] 100 (1 / 25) 20 0 0 =
     [\<lparr>priceLevel = 100, timeSlot = 0, hm_volume = 1, hm_intensity = 1 / 10, hm_type = Bid,
       temperature = min (ln 2 * 10 / 100) 1\<rparr>]"
    by (simp add: heatmap_cell_def heatmap_book_def cell_bidVolume_def cell_askVolume_def
          mk_level_def calculateTemperature_def Let_def)
  have b: "heatmap_cell [heatmap_book] 100 (1 / 25) 20 0 25 = []"
    by (simp add: heatmap_cell_def heatmap_book_def cell_bidVolume_def cell_askVolume_def
          mk_level_def Let_def)
  have c: "cell_bidVolume [heatmap_book\<lparr>bids := asks heatmap_book\<rparr>] [101, 101 + 1 / 25] = 1"
    by (simp add: heatmap_book_def cell_bidVolume_def mk_level_def)
  have d: "cell_askVolume [heatmap_book] [101, 101 + 1 / 25] = 0"
    by (simp add: heatmap_book_def cell_askVolume_def mk_level_def)
  have e: "filter (\<lambda>c. hm_type c = Ask)
        (generateMarketDepthHeatmap [heatmap_book] 300000 300000) = []"
    unfolding filter_empty_conv using generateMarketDepthHeatmap_no_ask by fastforce
  have f: "generateMarketDepthHeatmap [heatmap_book] 300000 300000 =
     [\<lparr>priceLevel = 100, timeSlot = 0, hm_volume = 1, hm_intensity = 1 / 10, hm_type = Bid,
       temperature = min (ln 2 * 10 / 100) 1\<rparr>]"
    by (simp add: generateMarketDepthHeatmap_def heatmap_cell_def heatmap_book_def
          cell_bidVolume_def cell_askVolume_def mk_level_def calculateTemperature_def Let_def
          upt_rec [of _ "numeral _"])
  show ?thesis
    using a b c d e f by (simp only: simp_thms)
qed

section \<open>Market impact of a trade far larger than the depth\<close>

lemma round_half_even_of_int: "round_half_even (of_int j) = j"
  by (simp add: round_half_even_def)

lemma fl_exponent:
  assumes "x \<noteq> 0" and "2 powr of_int e \<le> \<bar>x\<bar>" and "\<bar>x\<bar> < 2 powr of_int (e + 1)"
  shows "fl x = of_int (round_half_even (x / 2 powr of_int (e - 52))) * 2 powr of_int (e - 52)"
proof -
  have "\<lfloor>log 2 \<bar>x\<bar>\<rfloor> = e"
    using assms by (subst floor_log_eq_powr_iff) simp_all
  then show ?thesis
    using assms(1) by (simp add: fl_def Let_def)
qed

lemma fl_tie_53: "fl 9007199254740993 = 9007199254740992"
  using fl_exponent [of 9007199254740993 53]
  by (simp add: round_half_even_def)

lemma fl_tie_54: "fl 18014398509481983 = 18014398509481984"
  using fl_exponent [of 18014398509481983 53]
  by (simp add: round_half_even_def)

lemma fl_of_int_scaled:
  assumes "x \<noteq> 0" and "2 powr of_int e \<le> \<bar>x\<bar>" and "\<bar>x\<bar> < 2 powr of_int (e + 1)"
    and "x / 2 powr of_int (e - 52) = of_int j"
  shows "fl x = x"
proof -
  have "fl x = of_int j * 2 powr of_int (e - 52)"
    unfolding fl_exponent [OF assms(1-3)] assms(4) round_half_even_of_int ..
  also have "\<dots> = x / 2 powr of_int (e - 52) * 2 powr of_int (e - 52)"
    unfolding assms(4) ..
  also have "\<dots> = x"
    by simp
  finally show ?thesis .
qed

lemma fl_of_int_exact:
  assumes "\<bar>n\<bar> \<le> 2 ^ 53"
  shows "fl (of_int n) = of_int n"
proof (cases "n = 0")
  case True
  then show ?thesis by (simp add: fl_def)
next
  case False
  define x :: real where "x = of_int n"
  define e where "e = \<lfloor>log 2 \<bar>x\<bar>\<rfloor>"
  have x0: "x \<noteq> 0" and x1: "1 \<le> \<bar>x\<bar>"
    using False by (simp_all add: x_def)
  have xle: "\<bar>x\<bar> \<le> 2 ^ 53"
  proof -
    have "real_of_int \<bar>n\<bar> \<le> real_of_int (2 ^ 53)"
      using assms by (simp only: of_int_le_iff)
    then show ?thesis
      by (simp add: x_def)
  qed
  have b: "2 powr of_int e \<le> \<bar>x\<bar>" "\<bar>x\<bar> < 2 powr of_int (e + 1)"
    using floor_log_eq_powr_iff [of "\<bar>x\<bar>" 2 e] x0 by (simp_all add: e_def)
  have e0: "0 \<le> e"
    unfolding e_def using x1 by simp
  have e53: "e \<le> 53"
  proof (rule ccontr)
    assume "\<not> e \<le> 53"
    then have "(54 :: real) \<le> of_int e"
      by simp
    then have "(2 :: real) powr 54 \<le> 2 powr of_int e"
      by (intro powr_mono) simp_all
    then show False
      using b(1) xle by simp
  qed
  show ?thesis
  proof (cases "e \<le> 52")
    case True
    define k where "k = nat (52 - e)"
    have u: "(2 :: real) powr of_int (e - 52) = 1 / 2 ^ k"
    proof (cases "e = 52")
      case True
      then show ?thesis by (simp add: k_def)
    next
      case False
      then have "e - 52 < 0" using \<open>e \<le> 52\<close> by simp
      then show ?thesis
        using powr_int [of 2 "e - 52"] by (simp add: k_def)
    qed
    have "x / 2 powr of_int (e - 52) = of_int (n * 2 ^ k)"
      unfolding u by (simp add: x_def)
    from fl_of_int_scaled [OF x0 b this] show ?thesis
      by (simp add: x_def)
  next
    case False
    then have e: "e = 53"
      using e53 by simp
    have "(2 :: real) ^ 53 \<le> \<bar>x\<bar>"
      using b(1) unfolding e by simp
    then have ax: "\<bar>x\<bar> = 2 ^ 53"
      using xle by simp
    have "x / 2 powr of_int (e - 52) = of_int (n div 2)"
    proof -
      have "x = 2 ^ 53 \<or> x = - (2 ^ 53)"
        using ax by (simp add: abs_if split: if_splits)
      then have "n = 2 ^ 53 \<or> n = - (2 ^ 53)"
        unfolding x_def by (metis of_int_eq_iff of_int_minus of_int_numeral of_int_power)
      then show ?thesis
        unfolding e x_def by auto
    qed
    from fl_of_int_scaled [OF x0 b this] show ?thesis
      by (simp add: x_def)
  qed
qed

lemma fl_numeral_exact:
  "numeral w \<le> (9007199254740992 :: int) \<Longrightarrow> fl (numeral w) = numeral w"
  using fl_of_int_exact [of "numeral w"] by simp

lemma fl_zero: "fl 0 = 0"
  by (simp add: fl_def)

text \<open>
  Claim C1. The claim asks, for a trade larger than the available depth, for the
  volume-weighted average price over the consumed portion. The code divides the total cost
  by \<open>tradeSize - remainingSize\<close>; for a trade size from \<open>2^53\<close> on, the subtractions of
  the level quantities from \<open>remainingSize\<close> are rounded away, and the divisor is no longer
  the consumed size. On the book \<open>impact_book\<close> (asks 103, 104, 105, one unit each, depth 3,
  volume-weighted average 104) a buy of size 5 gives the average price 104; a buy of size
  \<open>2^53 + 2 = 9007199254740994\<close> consumes the same three levels, but the divisor is 4 and
  the average price 78; a buy of size \<open>2^54 = 18014398509481984\<close> has divisor 0 and a
  result that is not finite.
\<close>

theorem calculateMarketImpact_absorbs_fills:
  "map_sum id (\<lambda>r. (averagePrice r, worstPrice r))
      (calculateMarketImpact impact_book 5 Buy) = Inr (104, 105)
   \<and> map_sum id (\<lambda>r. (averagePrice r, worstPrice r))
      (calculateMarketImpact impact_book 9007199254740994 Buy) = Inr (78, 105)
   \<and> calculateMarketImpact impact_book 18014398509481984 Buy = Inl NotFinite
   \<and> sum_list (map quantity (asks impact_book)) = 3
   \<and> sum_list (map (\<lambda>l. quantity l * price l) (asks impact_book)) /
       sum_list (map quantity (asks impact_book)) = 104"
proof -
  have a: "map_sum id (\<lambda>r. (averagePrice r, worstPrice r))
      (calculateMarketImpact impact_book 5 Buy) = Inr (104, 105)"
    by (simp add: calculateMarketImpact_def impact_levels_def impact_book_def mk_level_def
          fl_div_def fl_numeral_exact fl_zero Let_def)
  have b: "map_sum id (\<lambda>r. (averagePrice r, worstPrice r))
      (calculateMarketImpact impact_book 9007199254740994 Buy) = Inr (78, 105)"
    by (simp add: calculateMarketImpact_def impact_levels_def impact_book_def mk_level_def
          fl_div_def fl_numeral_exact fl_zero fl_tie_53 Let_def)
  have c: "calculateMarketImpact impact_book 18014398509481984 Buy = Inl NotFinite"
    by (simp add: calculateMarketImpact_def impact_levels_def impact_book_def mk_level_def
          fl_div_def fl_numeral_exact fl_zero fl_tie_54 Let_def)
  have d: "sum_list (map quantity (asks impact_book)) = 3"
    "sum_list (map (\<lambda>l. quantity l * price l) (asks impact_book)) /
       sum_list (map quantity (asks impact_book)) = 104"
    by (simp_all add: impact_book_def mk_level_def)
  show ?thesis
    using a b c d by (simp only: simp_thms)
qed


section \<open>Trend of the spread\<close>











lemma regN_const: "regN (\<lambda>i. c) n = 0"
  by (simp add: regN_def sum_distrib_left [symmetric] algebra_simps)














section \<open>Bounded stores\<close>

lemma slice_last_length: "length (slice_last n xs) = min n (length xs)"
  by (simp add: slice_last_def)

lemma slice_last_append:
  "slice_last n (slice_last n xs @ ys) = slice_last n (xs @ ys)"
proof (cases "length xs \<le> n")
  case True
  then show ?thesis by (simp add: slice_last_def)
next
  case False
  define k where "k = length xs - n"
  have k: "length xs = k + n"
    using False by (simp add: k_def)
  have "slice_last n (slice_last n xs @ ys) = drop (length ys) (drop k xs @ ys)"
    by (simp add: slice_last_def k)
  also have "\<dots> = drop (length ys) (drop k (xs @ ys))"
    using k by simp
  also have "\<dots> = drop (length ys + k) (xs @ ys)"
    by (simp only: drop_drop)
  also have "\<dots> = slice_last n (xs @ ys)"
    by (simp add: slice_last_def k add.commute)
  finally show ?thesis .
qed

lemma slice_last_all: "length xs \<le> n \<Longrightarrow> slice_last n xs = xs"
  by (simp add: slice_last_def)

lemma push_shift_slice:
  assumes "length xs \<le> n" and "0 < n"
  shows "push_shift n xs x = slice_last n (xs @ [x])"
proof (cases "length xs = n")
  case True
  have "slice_last n (xs @ [x]) = drop (Suc 0) (xs @ [x])"
    using True by (simp add: slice_last_def)
  also have "\<dots> = tl (xs @ [x])"
    by (simp only: drop_Suc drop_0)
  finally show ?thesis
    using True by (simp add: push_shift_def Let_def)
next
  case False
  then show ?thesis
    using assms by (simp add: push_shift_def Let_def slice_last_def)
qed

lemma updateHistoricalZones_slice:
  "updateHistoricalZones h zs = slice_last 1000 (h @ zs)"
  by (simp add: updateHistoricalZones_def Let_def maxHistoryLength_def slice_last_def)

lemma p_snapshots_addSnapshot:
  "get_list (p_snapshots (addSnapshot data zs now1 now2 st)) k =
     (if k = store_key (venue data) (symbol data)
      then push_shift maxSnapshots (get_list (p_snapshots st) k)
             \<lparr>snap_timestamp = timestamp data,
              snap_data = data\<lparr>bids := calculateCumulative (bids data) Desc,
                                asks := calculateCumulative (asks data) Asc\<rparr>,
              snap_pressureZones = zs,
              zAxisPosition = calculateZPosition (p_zAxisTimeData st) (timestamp data)\<rparr>
      else get_list (p_snapshots st) k)"
  by (simp add: addSnapshot_def updateZAxisTimeData_def updateHistoricalData_def
        updateSpreadHistory_def Let_def get_list_def)

lemma map_slice_last: "map f (slice_last n xs) = slice_last n (map f xs)"
  by (simp add: slice_last_def drop_map)

lemma run_processor_snoc:
  "run_processor st (ops @ [op]) =
     addSnapshot (op_data op) (op_zones op) (op_now1 op) (op_now2 op) (run_processor st ops)"
  by (simp add: run_processor_def)

lemma run_processor_snapshots:
  "map stored_snapshot (get_list (p_snapshots (run_processor (new_processor t0) ops)) k) =
     slice_last 1000 (map ingested_snapshot (filter (\<lambda>op. op_key op = k) ops))"
proof (induction ops rule: rev_induct)
  case Nil
  show ?case
    by (simp add: run_processor_def new_processor_def get_list_def slice_last_def)
next
  case (snoc op ops)
  define st where "st = run_processor (new_processor t0) ops"
  define old where "old = get_list (p_snapshots st) k"
  have ih: "map stored_snapshot old =
              slice_last 1000 (map ingested_snapshot (filter (\<lambda>op. op_key op = k) ops))"
    unfolding old_def st_def using snoc.IH .
  show ?case
  proof (cases "op_key op = k")
    case False
    then have "get_list (p_snapshots (run_processor (new_processor t0) (ops @ [op]))) k = old"
      unfolding run_processor_snoc p_snapshots_addSnapshot old_def st_def op_key_def by auto
    then show ?thesis
      using ih False by simp
  next
    case True
    define sn where "sn =
       \<lparr>snap_timestamp = timestamp (op_data op),
        snap_data = (op_data op)\<lparr>bids := calculateCumulative (bids (op_data op)) Desc,
                                 asks := calculateCumulative (asks (op_data op)) Asc\<rparr>,
        snap_pressureZones = op_zones op,
        zAxisPosition = calculateZPosition (p_zAxisTimeData st) (timestamp (op_data op))\<rparr>"
    have sp: "stored_snapshot sn = ingested_snapshot op"
      by (simp add: sn_def stored_snapshot_def ingested_snapshot_def)
    have "length (map stored_snapshot old) \<le> 1000"
      unfolding ih by (simp add: slice_last_length)
    then have len: "length old \<le> 1000"
      by simp
    have "get_list (p_snapshots (run_processor (new_processor t0) (ops @ [op]))) k =
            push_shift maxSnapshots old sn"
      unfolding run_processor_snoc p_snapshots_addSnapshot old_def st_def sn_def
      using True by (simp add: op_key_def)
    also have "\<dots> = slice_last 1000 (old @ [sn])"
      unfolding maxSnapshots_def using len by (intro push_shift_slice) simp_all
    finally have "map stored_snapshot
                    (get_list (p_snapshots (run_processor (new_processor t0) (ops @ [op]))) k) =
                  slice_last 1000 (map stored_snapshot old @ [ingested_snapshot op])"
      by (simp add: map_slice_last sp)
    also have "\<dots> = slice_last 1000
                 (map ingested_snapshot (filter (\<lambda>op. op_key op = k) ops) @ [ingested_snapshot op])"
      unfolding ih by (rule slice_last_append)
    finally show ?thesis
      using True by simp
  qed
qed

lemma run_detector_history:
  "length h \<le> 1000 \<Longrightarrow>
   snd (run_detector h datas) = slice_last 1000 (h @ concat (fst (run_detector h datas)))"
proof (induction datas arbitrary: h)
  case Nil
  then show ?case by (simp add: slice_last_all)
next
  case (Cons d rest)
  obtain zones h' where dz: "detectPressureZones d h = (zones, h')"
    by (cases "detectPressureZones d h") auto
  have h': "h' = slice_last 1000 (h @ zones)"
    using dz by (auto simp: detectPressureZones_def Let_def updateHistoricalZones_slice)
  have len: "length h' \<le> 1000"
    unfolding h' by (simp add: slice_last_length)
  obtain out final where rd: "run_detector h' rest = (out, final)"
    by (cases "run_detector h' rest") auto
  have "final = slice_last 1000 (h' @ concat out)"
    using Cons.IH [OF len] rd by simp
  also have "\<dots> = slice_last 1000 ((h @ zones) @ concat out)"
    unfolding h' by (rule slice_last_append)
  finally show ?case
    using dz rd by simp
qed

text \<open>
  Claim C7. After every sequence of ingest operations on a new processor, the snapshot
  history of each venue+symbol key holds at most 1000 entries, and these are the last 1000
  snapshots ingested for that key, in order: eviction removes the oldest. After every
  sequence of \<open>detectPressureZones\<close> calls on a new detector, the shared store of
  historical zones holds at most 1000 zones, and these are the last 1000 zones emitted,
  in order.
\<close>

theorem bounded_stores_fifo:
  "(let st = run_processor (new_processor t0) ops;
        store = get_list (p_snapshots st) k
    in length store \<le> 1000
       \<and> map stored_snapshot store =
           slice_last 1000 (map ingested_snapshot (filter (\<lambda>op. op_key op = k) ops)))
   \<and> (let (emitted, historicalZones) = run_detector [] datas
      in length historicalZones \<le> 1000
         \<and> historicalZones = slice_last 1000 (concat emitted))"
proof -
  have a: "map stored_snapshot (get_list (p_snapshots (run_processor (new_processor t0) ops)) k) =
           slice_last 1000 (map ingested_snapshot (filter (\<lambda>op. op_key op = k) ops))"
    by (rule run_processor_snapshots)
  have "length (map stored_snapshot
          (get_list (p_snapshots (run_processor (new_processor t0) ops)) k)) \<le> 1000"
    unfolding a by (simp add: slice_last_length)
  then have b: "length (get_list (p_snapshots (run_processor (new_processor t0) ops)) k) \<le> 1000"
    by simp
  have c: "snd (run_detector [] datas) = slice_last 1000 (concat (fst (run_detector [] datas)))"
    using run_detector_history [of "[]" datas] by simp
  have "length (snd (run_detector [] datas)) \<le> 1000"
    unfolding c by (simp add: slice_last_length)
  then show ?thesis
    using a b c by (simp add: Let_def case_prod_beta)
qed

theorem bounded_stores_fifo_witness:
  "map fst (map stored_snapshot
      (get_list (p_snapshots (run_processor (new_processor 0)
                                (sample_op 1 # replicate 1000 (sample_op 2))))
                ''Binance-BTCUSDT'')) = replicate 1000 2"
proof -
  have k: "op_key (sample_op ts) = ''Binance-BTCUSDT''" for ts
    by (simp add: op_key_def sample_op_def store_key_def)
  have f: "fst (ingested_snapshot (sample_op ts)) = ts" for ts
    by (simp add: ingested_snapshot_def sample_op_def)
  have "map stored_snapshot
      (get_list (p_snapshots (run_processor (new_processor 0)
                                (sample_op 1 # replicate 1000 (sample_op 2))))
                ''Binance-BTCUSDT'') =
        slice_last 1000 (map ingested_snapshot
           (filter (\<lambda>op. op_key op = ''Binance-BTCUSDT'')
              (sample_op 1 # replicate 1000 (sample_op 2))))"
    using bounded_stores_fifo [of 0 "sample_op 1 # replicate 1000 (sample_op 2)"
            "''Binance-BTCUSDT''" "[]"]
    by (simp add: Let_def)
  also have "\<dots> = replicate 1000 (ingested_snapshot (sample_op 2))"
    by (simp add: k slice_last_def)
  finally show ?thesis
    by (simp add: f)
qed

section \<open>Fan-out with per-subscriber isolation\<close>

lemma try_catch_console:
  "fst (try_catch (invoke sub data) (console_error msg) w) = None"
  by (simp add: try_catch_def invoke_def console_error_def split: prod.splits option.splits)

lemma calls_try_catch:
  "calls (snd (try_catch (invoke sub data) (console_error msg) w)) =
     calls w @ [(sub_id sub, data)]"
  by (simp add: try_catch_def invoke_def console_error_def split: prod.splits option.splits)

lemma notifySubscribers_calls:
  "fst (notifySubscribers data subs w) = None \<and>
   calls (snd (notifySubscribers data subs w)) = calls w @ map (\<lambda>sub. (sub_id sub, data)) subs"
proof (induction subs arbitrary: w)
  case Nil
  show ?case by (simp add: notifySubscribers_def)
next
  case (Cons sub subs)
  obtain r w' where tc: "try_catch (invoke sub data)
                           (console_error ''Error in subscriber callback:'') w = (r, w')"
    by (cases "try_catch (invoke sub data) (console_error ''Error in subscriber callback:'') w")
  have r: "r = None"
    using try_catch_console [of sub data "''Error in subscriber callback:''" w] tc by simp
  have c: "calls w' = calls w @ [(sub_id sub, data)]"
    using calls_try_catch [of sub data "''Error in subscriber callback:''" w] tc by simp
  have "notifySubscribers data (sub # subs) w = notifySubscribers data subs w'"
    using tc r by (simp add: notifySubscribers_def)
  then show ?case
    using Cons.IH [of w'] c by simp
qed


text \<open>
  Claim C9. For every delivered snapshot and every list of registered subscribers, the
  dispatch invokes the callback of every subscriber with the snapshot, in order, and no
  exception escapes it: an exception thrown by a callback is caught inside the loop (and
  logged), so the subscribers after it still receive the snapshot.
\<close>

theorem notifySubscribers_delivers_to_all:
  "fst (notifySubscribers data subscribers w) = None
   \<and> calls (snd (notifySubscribers data subscribers w)) =
       calls w @ map (\<lambda>sub. (sub_id sub, data)) subscribers"
  by (rule notifySubscribers_calls)

theorem notifySubscribers_delivers_to_all_witness:
  "calls (snd (notifySubscribers 42 [throwing_subscriber, counting_subscriber]
                 \<lparr>calls = [], console = [], app = 0\<rparr>)) = [(1, 42), (2, 42)]
   \<and> app (snd (notifySubscribers 42 [throwing_subscriber, counting_subscriber]
                 \<lparr>calls = [], console = [], app = 0\<rparr>)) = 1
   \<and> console (snd (notifySubscribers 42 [throwing_subscriber, counting_subscriber]
                 \<lparr>calls = [], console = [], app = 0\<rparr>)) =
       [(''Error in subscriber callback:'', ''boom'')]
   \<and> fst (forEach (\<lambda>sub. invoke sub 42) [throwing_subscriber, counting_subscriber]
            \<lparr>calls = [], console = [], app = 0\<rparr>) = Some ''boom''
   \<and> calls (snd (forEach (\<lambda>sub. invoke sub 42) [throwing_subscriber, counting_subscriber]
            \<lparr>calls = [], console = [], app = 0\<rparr>)) = [(1, 42)]"
  using notifySubscribers_delivers_to_all
          [of 42 "[throwing_subscriber, counting_subscriber]"
              "\<lparr>calls = [], console = [], app = 0\<rparr>"]
  by (simp add: notifySubscribers_def try_catch_def invoke_def console_error_def
        throwing_subscriber_def counting_subscriber_def)

section \<open>Poll failures, reconnects and the circuit breaker\<close>











end
